theory Spec2Isabelle
  imports Main "HOL-Library.Word" "HOL-Library.Signed_Division"
begin

unbundle bit_operations_syntax

section \<open>Platform types and the BCD macros\<close>

type_synonym uint8_t = "8 word"

text \<open>
  The three conversion macros of the driver.  Their arguments are C expressions of type
  \<open>int\<close> (bit-fields and \<open>uint8_t\<close> values are promoted), and C division and remainder
  truncate towards zero, hence \<open>sdiv\<close> and \<open>smod\<close>.  No value that reaches them leaves
  the range of a 16-bit \<open>int\<close>, so mathematical integers are exact here.
\<close>

definition bcd2bin :: "int \<Rightarrow> int \<Rightarrow> int" where
  "bcd2bin h l = (h * 10) + l"

definition bin2bcd_h :: "int \<Rightarrow> int" where
  "bin2bcd_h x = x sdiv 10"

definition bin2bcd_l :: "int \<Rightarrow> int" where
  "bin2bcd_l x = x smod 10"

text \<open>Register addresses and commands used by the code.\<close>

definition DS1302_ENABLE :: int where "DS1302_ENABLE = 0x8E"
definition DS1302_TRICKLE :: int where "DS1302_TRICKLE = 0x90"
definition DS1302_CLOCK_BURST_WRITE :: uint8_t where "DS1302_CLOCK_BURST_WRITE = 0xBE"
definition DS1302_CLOCK_BURST_READ :: uint8_t where "DS1302_CLOCK_BURST_READ = 0xBF"
definition DS1302_READBIT :: nat where "DS1302_READBIT = 0"

text \<open>
  The Arduino bit macros: \<open>bitRead(v, b) = (v >> b) & 0x01\<close>, \<open>bitSet(v, b)\<close> is
  \<open>v |= 1UL << b\<close>, \<open>bitClear(v, b)\<close> is \<open>v &= ~(1UL << b)\<close>, and
  \<open>bitWrite(v, b, x)\<close> chooses between the last two.
\<close>

definition bitRead :: "uint8_t \<Rightarrow> nat \<Rightarrow> uint8_t" where
  "bitRead v b = drop_bit b v AND 1"

definition bitWrite :: "uint8_t \<Rightarrow> nat \<Rightarrow> bool \<Rightarrow> uint8_t" where
  "bitWrite v b x = (if x then v OR push_bit b 1 else v AND NOT (push_bit b 1))"

definition bitSet_int :: "int \<Rightarrow> nat \<Rightarrow> int" where
  "bitSet_int v b = v OR push_bit b 1"

definition bitClear_int :: "int \<Rightarrow> nat \<Rightarrow> int" where
  "bitClear_int v b = v AND NOT (push_bit b 1)"

definition HIGH :: uint8_t where "HIGH = 1"
definition LOW :: uint8_t where "LOW = 0"

datatype pin_mode = INPUT | OUTPUT

section \<open>The register image\<close>

text \<open>
  \<open>ds1302_struct\<close> is eight bytes of bit-fields that the driver transfers through a
  \<open>uint8_t *\<close>.  The image is modelled as the list of its bytes; every bit-field is
  a (byte, lowest bit, width) triple.  Fields are allocated from bit 0 upwards in
  declaration order, which is the layout the source's own bit numbers state
  (\<open>DS1302_CH = D7\<close>, \<open>DS1302_AM_PM = D5\<close>, \<open>DS1302_12_24 = D7\<close>, \<open>DS1302_WP = D7\<close>).
  The two members \<open>h24\<close> and \<open>h12\<close> of the anonymous union share byte 2.
\<close>

datatype ds1302_field =
    rtc_Seconds | rtc_Seconds10 | rtc_CH
  | rtc_Minutes | rtc_Minutes10 | rtc_reserved1
  | h24_Hour | h24_Hour10 | h24_reserved2 | h24_hour_12_24
  | h12_Hour | h12_Hour10 | h12_AM_PM | h12_reserved2 | h12_hour_12_24
  | rtc_Date | rtc_Date10 | rtc_reserved3
  | rtc_Month | rtc_Month10 | rtc_reserved4
  | rtc_Day | rtc_reserved5
  | rtc_Year | rtc_Year10
  | rtc_reserved6 | rtc_WP

fun layout :: "ds1302_field \<Rightarrow> nat \<times> nat \<times> nat" where
  "layout rtc_Seconds = (0, 0, 4)"
| "layout rtc_Seconds10 = (0, 4, 3)"
| "layout rtc_CH = (0, 7, 1)"
| "layout rtc_Minutes = (1, 0, 4)"
| "layout rtc_Minutes10 = (1, 4, 3)"
| "layout rtc_reserved1 = (1, 7, 1)"
| "layout h24_Hour = (2, 0, 4)"
| "layout h24_Hour10 = (2, 4, 2)"
| "layout h24_reserved2 = (2, 6, 1)"
| "layout h24_hour_12_24 = (2, 7, 1)"
| "layout h12_Hour = (2, 0, 4)"
| "layout h12_Hour10 = (2, 4, 1)"
| "layout h12_AM_PM = (2, 5, 1)"
| "layout h12_reserved2 = (2, 6, 1)"
| "layout h12_hour_12_24 = (2, 7, 1)"
| "layout rtc_Date = (3, 0, 4)"
| "layout rtc_Date10 = (3, 4, 2)"
| "layout rtc_reserved3 = (3, 6, 2)"
| "layout rtc_Month = (4, 0, 4)"
| "layout rtc_Month10 = (4, 4, 1)"
| "layout rtc_reserved4 = (4, 5, 3)"
| "layout rtc_Day = (5, 0, 3)"
| "layout rtc_reserved5 = (5, 3, 5)"
| "layout rtc_Year = (6, 0, 4)"
| "layout rtc_Year10 = (6, 4, 4)"
| "layout rtc_reserved6 = (7, 0, 7)"
| "layout rtc_WP = (7, 7, 1)"

type_synonym ds1302_struct = "uint8_t list"

text \<open>Reading a bit-field yields its unsigned value, promoted to \<open>int\<close>.\<close>

definition get_field :: "ds1302_field \<Rightarrow> ds1302_struct \<Rightarrow> int" where
  "get_field f rtc =
     (case layout f of (byte, lo, width) \<Rightarrow> uint (take_bit width (drop_bit lo (rtc ! byte))))"

text \<open>
  Assigning an \<open>int\<close> to an unsigned bit-field of width \<open>w\<close> stores it modulo \<open>2 ^ w\<close>
  and leaves the other bits of the byte alone.
\<close>

definition set_field :: "ds1302_field \<Rightarrow> int \<Rightarrow> ds1302_struct \<Rightarrow> ds1302_struct" where
  "set_field f v rtc =
     (case layout f of (byte, lo, width) \<Rightarrow>
        rtc[byte := (rtc ! byte AND NOT (push_bit lo (mask width)))
                      OR push_bit lo (take_bit width (word_of_int v))])"

text \<open>\<open>memset ((char *) &rtc, 0, sizeof(rtc))\<close> on the eight-byte structure.\<close>

definition memset_zero :: ds1302_struct where
  "memset_zero = replicate 8 0"

text \<open>
  Modelled from the spec: \<open>tmElements_t\<close> is declared by the external Time library
  (\<open>Time.h\<close>), absent from the repository.  The spec lists its seven fields; each is
  an unsigned byte.
\<close>

record tmElements_t =
  Second :: uint8_t
  Minute :: uint8_t
  Hour :: uint8_t
  Wday :: uint8_t
  Day :: uint8_t
  Month :: uint8_t
  Year :: uint8_t

section \<open>The GPIO capability and the driver state\<close>

text \<open>
  \<open>digitalWrite\<close>, \<open>pinMode\<close>, \<open>digitalRead\<close> and \<open>delayMicroseconds\<close> belong to the
  host platform.  A call to one of them is recorded, with its arguments, in the log
  \<open>gpio\<close>; the level that the \<open>k\<close>-th \<open>digitalRead\<close> finds on the line is given by
  the environment function \<open>line\<close>, and \<open>nreads\<close> counts the samples taken so far.
\<close>

datatype gpio_event =
    DigitalWrite uint8_t uint8_t
  | PinMode uint8_t pin_mode
  | DelayMicroseconds nat
  | DigitalRead uint8_t bool

text \<open>
  The second log, \<open>calls\<close>, notes every invocation of the four private protocol
  helpers in the order in which they happen: it is what the claims on session framing
  speak about.  No function reads it.
\<close>

datatype call_event =
    Call_start
  | Call_stop
  | Call_togglewrite uint8_t uint8_t
  | Call_toggleread uint8_t

text \<open>
  The static members \<open>exists\<close>, \<open>io\<close>, \<open>sclk\<close>, \<open>rst\<close> of the class, together with the
  two logs and the environment.
\<close>

record driver =
  exists :: bool
  io :: uint8_t
  sclk :: uint8_t
  rst :: uint8_t
  gpio :: "gpio_event list"
  calls :: "call_event list"
  line :: "nat \<Rightarrow> bool"
  nreads :: nat

definition digitalWrite :: "uint8_t \<Rightarrow> uint8_t \<Rightarrow> driver \<Rightarrow> driver" where
  "digitalWrite pin val s = s\<lparr>gpio := gpio s @ [DigitalWrite pin val]\<rparr>"

definition pinMode :: "uint8_t \<Rightarrow> pin_mode \<Rightarrow> driver \<Rightarrow> driver" where
  "pinMode pin m s = s\<lparr>gpio := gpio s @ [PinMode pin m]\<rparr>"

definition delayMicroseconds :: "nat \<Rightarrow> driver \<Rightarrow> driver" where
  "delayMicroseconds us s = s\<lparr>gpio := gpio s @ [DelayMicroseconds us]\<rparr>"

definition digitalRead :: "uint8_t \<Rightarrow> driver \<Rightarrow> bool \<times> driver" where
  "digitalRead pin s =
     (let v = line s (nreads s)
      in (v, s\<lparr>gpio := gpio s @ [DigitalRead pin v], nreads := nreads s + 1\<rparr>))"

definition note_call :: "call_event \<Rightarrow> driver \<Rightarrow> driver" where
  "note_call c s = s\<lparr>calls := calls s @ [c]\<rparr>"

text \<open>The initial values of the static members, and the constructor.\<close>

definition initial :: "(nat \<Rightarrow> bool) \<Rightarrow> driver" where
  "initial env = \<lparr>exists = False, io = 0, sclk = 0, rst = 0,
                   gpio = [], calls = [], line = env, nreads = 0\<rparr>"

definition DS1302RTC :: "uint8_t \<Rightarrow> uint8_t \<Rightarrow> uint8_t \<Rightarrow> driver \<Rightarrow> driver" where
  "DS1302RTC io' sclk' rst' s = s\<lparr>io := io', sclk := sclk', rst := rst', exists := True\<rparr>"

section \<open>Protocol engine\<close>

definition start :: "driver \<Rightarrow> driver" where
  "start s0 =
     (let s = note_call Call_start s0;
          s = digitalWrite (rst s) LOW s;
          s = pinMode (rst s) OUTPUT s;
          s = digitalWrite (sclk s) LOW s;
          s = pinMode (sclk s) OUTPUT s;
          s = pinMode (io s) OUTPUT s;
          s = digitalWrite (rst s) HIGH s;
          s = delayMicroseconds 4 s
      in s)"

definition stop :: "driver \<Rightarrow> driver" where
  "stop s0 =
     (let s = note_call Call_stop s0;
          s = digitalWrite (rst s) LOW s;
          s = delayMicroseconds 4 s
      in s)"

text \<open>One pass through the body of the \<open>for\<close> loop of \<open>togglewrite\<close>.\<close>

definition togglewrite_body :: "nat \<Rightarrow> uint8_t \<Rightarrow> uint8_t \<Rightarrow> driver \<Rightarrow> driver" where
  "togglewrite_body i data release s0 =
     (let s = digitalWrite (io s0) (bitRead data i) s0;
          s = delayMicroseconds 1 s;
          s = digitalWrite (sclk s) HIGH s;
          s = delayMicroseconds 1 s
      in if release \<noteq> 0 \<and> i = 7
         then pinMode (io s) INPUT s
         else delayMicroseconds 1 (digitalWrite (sclk s) LOW s))"

function togglewrite_loop :: "nat \<Rightarrow> uint8_t \<Rightarrow> uint8_t \<Rightarrow> driver \<Rightarrow> driver" where
  "togglewrite_loop i data release s =
     (if i \<le> 7 then togglewrite_loop (i + 1) data release (togglewrite_body i data release s)
      else s)"
  by pat_completeness auto
termination
  by (relation "measure (\<lambda>(i, data, release, s). 8 - i)") auto

definition togglewrite :: "uint8_t \<Rightarrow> uint8_t \<Rightarrow> driver \<Rightarrow> driver" where
  "togglewrite data release s =
     togglewrite_loop 0 data release (note_call (Call_togglewrite data release) s)"

text \<open>One pass through the body of the \<open>for\<close> loop of \<open>toggleread\<close>.\<close>

definition toggleread_body :: "nat \<Rightarrow> uint8_t \<Rightarrow> driver \<Rightarrow> uint8_t \<times> driver" where
  "toggleread_body i data s0 =
     (let s = digitalWrite (sclk s0) HIGH s0;
          s = delayMicroseconds 1 s;
          s = digitalWrite (sclk s) LOW s;
          s = delayMicroseconds 1 s;
          (v, s) = digitalRead (io s) s
      in (bitWrite data i v, s))"

function toggleread_loop :: "nat \<Rightarrow> uint8_t \<Rightarrow> driver \<Rightarrow> uint8_t \<times> driver" where
  "toggleread_loop i data s =
     (if i \<le> 7
      then (case toggleread_body i data s of (data', s') \<Rightarrow> toggleread_loop (i + 1) data' s')
      else (data, s))"
  by pat_completeness auto
termination
  by (relation "measure (\<lambda>(i, data, s). 8 - i)") auto

definition toggleread :: "driver \<Rightarrow> uint8_t \<times> driver" where
  "toggleread s =
     (case toggleread_loop 0 0 s of (data, s') \<Rightarrow> (data, note_call (Call_toggleread data) s'))"

section \<open>Burst transfer and single-register access\<close>

text \<open>
  \<open>clock_burst_read\<close> stores eight bytes through \<open>p\<close>, one after the other; the model
  returns them in the order stored, which is the content of the caller's eight-byte
  structure afterwards.
\<close>

function burst_read_loop :: "nat \<Rightarrow> uint8_t list \<Rightarrow> driver \<Rightarrow> uint8_t list \<times> driver" where
  "burst_read_loop i p s =
     (if i < 8
      then (case toggleread s of (b, s') \<Rightarrow> burst_read_loop (i + 1) (p @ [b]) s')
      else (p, s))"
  by pat_completeness auto
termination
  by (relation "measure (\<lambda>(i, p, s). 8 - i)") auto

definition clock_burst_read :: "driver \<Rightarrow> uint8_t list \<times> driver" where
  "clock_burst_read s0 =
     (let s = start s0;
          s = togglewrite DS1302_CLOCK_BURST_READ 1 s;
          (p, s) = burst_read_loop 0 [] s
      in (p, stop s))"

text \<open>
  \<open>clock_burst_write\<close> sends the eight bytes \<open>p[0]\<close> to \<open>p[7]\<close>.  Its only caller passes
  the eight-byte structure; for a shorter buffer C defines no behaviour and \<open>p ! i\<close> no
  value.
\<close>

function burst_write_loop :: "nat \<Rightarrow> uint8_t list \<Rightarrow> driver \<Rightarrow> driver" where
  "burst_write_loop i p s =
     (if i < 8 then burst_write_loop (i + 1) p (togglewrite (p ! i) 0 s) else s)"
  by pat_completeness auto
termination
  by (relation "measure (\<lambda>(i, p, s). 8 - i)") auto

definition clock_burst_write :: "uint8_t list \<Rightarrow> driver \<Rightarrow> driver" where
  "clock_burst_write p s0 =
     (let s = start s0;
          s = togglewrite DS1302_CLOCK_BURST_WRITE 0 s;
          s = burst_write_loop 0 p s
      in stop s)"

text \<open>
  The private overloads \<open>read(int)\<close> and \<open>write(int, uint8_t)\<close>, named \<open>read_reg\<close>
  and \<open>write_reg\<close>.  The address is an
  \<open>int\<close>; passing it to \<open>togglewrite\<close> keeps its low eight bits.
\<close>

definition read_reg :: "int \<Rightarrow> driver \<Rightarrow> uint8_t \<times> driver" where
  "read_reg address0 s0 =
     (let address = bitSet_int address0 DS1302_READBIT;
          s = start s0;
          s = togglewrite (word_of_int address) 1 s;
          (data, s) = toggleread s
      in (data, stop s))"

definition write_reg :: "int \<Rightarrow> uint8_t \<Rightarrow> driver \<Rightarrow> driver" where
  "write_reg address0 data s0 =
     (let address = bitClear_int address0 DS1302_READBIT;
          s = start s0;
          s = togglewrite (word_of_int address) 0 s;
          s = togglewrite data 0 s
      in stop s)"

section \<open>Register codec and the public operations\<close>

text \<open>
  The assignments of \<open>read(tmElements_t &)\<close> after the burst read.  In the \<open>else\<close>
  branch the source writes \<open>bcd2bin(...) + rtc.h12.AM_PM?12:0\<close>; in C the sum is the
  condition of the conditional expression.
\<close>

definition read_decode :: "ds1302_struct \<Rightarrow> tmElements_t \<Rightarrow> tmElements_t" where
  "read_decode rtc tm0 =
     (let tm = tm0\<lparr>Second := word_of_int (bcd2bin (get_field rtc_Seconds10 rtc) (get_field rtc_Seconds rtc))\<rparr>;
          tm = tm\<lparr>Minute := word_of_int (bcd2bin (get_field rtc_Minutes10 rtc) (get_field rtc_Minutes rtc))\<rparr>;
          tm = (if get_field h24_hour_12_24 rtc = 0
                then tm\<lparr>Hour := word_of_int (bcd2bin (get_field h24_Hour10 rtc) (get_field h24_Hour rtc))\<rparr>
                else tm\<lparr>Hour := word_of_int
                        (if bcd2bin (get_field h12_Hour10 rtc) (get_field h12_Hour rtc)
                              + get_field h12_AM_PM rtc \<noteq> 0 then 12 else 0)\<rparr>);
          tm = tm\<lparr>Wday := word_of_int (get_field rtc_Day rtc)\<rparr>;
          tm = tm\<lparr>Day := word_of_int (bcd2bin (get_field rtc_Date10 rtc) (get_field rtc_Date rtc))\<rparr>;
          tm = tm\<lparr>Month := word_of_int (bcd2bin (get_field rtc_Month10 rtc) (get_field rtc_Month rtc))\<rparr>;
          tm = tm\<lparr>Year := word_of_int (bcd2bin (get_field rtc_Year10 rtc) (get_field rtc_Year rtc) + (2000 - 1970))\<rparr>
      in tm)"

text \<open>
  The public overloads \<open>read(tmElements_t &)\<close> and \<open>write(tmElements_t &)\<close> are
  \<open>read_tm\<close> and \<open>write_tm\<close>.  A parameter passed by reference is given to the model
  as its value before the call and returned as its value after the call.
\<close>

definition read_tm :: "tmElements_t \<Rightarrow> driver \<Rightarrow> bool \<times> tmElements_t \<times> driver" where
  "read_tm tm s0 =
     (let (rtc, s) = clock_burst_read s0
      in (True, read_decode rtc tm, s))"

text \<open>The structure that \<open>write(tmElements_t &)\<close> fills before the burst write.\<close>

definition write_encode :: "tmElements_t \<Rightarrow> ds1302_struct" where
  "write_encode tm =
     (let rtc = memset_zero;
          rtc = set_field rtc_Seconds (bin2bcd_l (uint (Second tm))) rtc;
          rtc = set_field rtc_Seconds10 (bin2bcd_h (uint (Second tm))) rtc;
          rtc = set_field rtc_Minutes (bin2bcd_l (uint (Minute tm))) rtc;
          rtc = set_field rtc_Minutes10 (bin2bcd_h (uint (Minute tm))) rtc;
          rtc = set_field h24_hour_12_24 0 rtc;
          rtc = set_field h24_Hour (bin2bcd_l (uint (Hour tm))) rtc;
          rtc = set_field h24_Hour10 (bin2bcd_h (uint (Hour tm))) rtc;
          rtc = set_field rtc_Day (bin2bcd_l (uint (Wday tm))) rtc;
          rtc = set_field rtc_Date (bin2bcd_l (uint (Day tm))) rtc;
          rtc = set_field rtc_Date10 (bin2bcd_h (uint (Day tm))) rtc;
          rtc = set_field rtc_Month (bin2bcd_l (uint (Month tm))) rtc;
          rtc = set_field rtc_Month10 (bin2bcd_h (uint (Month tm))) rtc;
          rtc = set_field rtc_Year (bin2bcd_l (uint (Year tm) - (2000 - 1970))) rtc;
          rtc = set_field rtc_Year10 (bin2bcd_h (uint (Year tm) - (2000 - 1970))) rtc
      in rtc)"

definition write_tm :: "tmElements_t \<Rightarrow> driver \<Rightarrow> bool \<times> tmElements_t \<times> driver" where
  "write_tm tm s0 =
     (let s = write_reg DS1302_ENABLE 0 s0;
          s = write_reg DS1302_TRICKLE 0x00 s;
          rtc = write_encode tm;
          s = clock_burst_write rtc s
      in (True, tm, s))"

text \<open>
  \<open>set\<close> converts with \<open>breakTime\<close> of the external Time library, which is a parameter
  here; \<open>time_t\<close> is its 32-bit unsigned count of seconds.
\<close>

definition set_time :: "(32 word \<Rightarrow> tmElements_t \<Rightarrow> tmElements_t) \<Rightarrow> tmElements_t \<Rightarrow> 32 word
    \<Rightarrow> driver \<Rightarrow> bool \<times> driver" where
  "set_time breakTime tm_uninit t s0 =
     (let tm = breakTime t tm_uninit;
          (r, tm', s) = write_tm tm s0
      in (r, s))"

text \<open>\<open>get\<close> reads into a local record and converts it with \<open>makeTime\<close>, a parameter too.\<close>

definition get_time :: "(tmElements_t \<Rightarrow> 32 word) \<Rightarrow> tmElements_t \<Rightarrow> driver \<Rightarrow> 32 word \<times> driver" where
  "get_time makeTime tm_uninit s0 =
     (let (r, tm, s) = read_tm tm_uninit s0
      in (makeTime tm, s))"

definition halt :: "driver \<Rightarrow> driver" where
  "halt s = write_reg DS1302_ENABLE 0x00 s"

definition chipPresent :: "driver \<Rightarrow> bool" where
  "chipPresent s = exists s"

section \<open>Vocabulary of the properties\<close>

subsection \<open>Signals\<close>

text \<open>
  The calls that \<open>togglewrite\<close> makes for bit \<open>i\<close> of \<open>data\<close> on the pins \<open>pio\<close> (data
  line) and \<open>pclk\<close> (clock line): drive the bit, raise the clock, then either release
  the data line (last bit, \<open>release\<close> set) or lower the clock.
\<close>

definition write_bit_events ::
    "uint8_t \<Rightarrow> uint8_t \<Rightarrow> uint8_t \<Rightarrow> uint8_t \<Rightarrow> nat \<Rightarrow> gpio_event list" where
  "write_bit_events pio pclk data release i =
     [DigitalWrite pio (of_bool (bit data i)), DelayMicroseconds 1,
      DigitalWrite pclk HIGH, DelayMicroseconds 1]
     @ (if release \<noteq> 0 \<and> i = 7 then [PinMode pio INPUT]
        else [DigitalWrite pclk LOW, DelayMicroseconds 1])"

definition write_events :: "uint8_t \<Rightarrow> uint8_t \<Rightarrow> uint8_t \<Rightarrow> uint8_t \<Rightarrow> gpio_event list" where
  "write_events pio pclk data release =
     concat (map (write_bit_events pio pclk data release) [0..<8])"

definition read_bit_events :: "uint8_t \<Rightarrow> uint8_t \<Rightarrow> bool \<Rightarrow> gpio_event list" where
  "read_bit_events pio pclk v =
     [DigitalWrite pclk HIGH, DelayMicroseconds 1, DigitalWrite pclk LOW, DelayMicroseconds 1,
      DigitalRead pio v]"

definition read_events :: "uint8_t \<Rightarrow> uint8_t \<Rightarrow> (nat \<Rightarrow> bool) \<Rightarrow> nat \<Rightarrow> gpio_event list" where
  "read_events pio pclk env n =
     concat (map (\<lambda>k. read_bit_events pio pclk (env (n + k))) [0..<8])"

definition start_events :: "uint8_t \<Rightarrow> uint8_t \<Rightarrow> uint8_t \<Rightarrow> gpio_event list" where
  "start_events pio pclk prst =
     [DigitalWrite prst LOW, PinMode prst OUTPUT, DigitalWrite pclk LOW, PinMode pclk OUTPUT,
      PinMode pio OUTPUT, DigitalWrite prst HIGH, DelayMicroseconds 4]"

definition stop_events :: "uint8_t \<Rightarrow> gpio_event list" where
  "stop_events prst = [DigitalWrite prst LOW, DelayMicroseconds 4]"

text \<open>
  The level of a pin after a run of GPIO calls: the value of the last \<open>digitalWrite\<close>
  to it, or the level \<open>lv\<close> it had before when there is none.
\<close>

fun level_after :: "uint8_t \<Rightarrow> uint8_t \<Rightarrow> gpio_event list \<Rightarrow> uint8_t" where
  "level_after pin lv [] = lv"
| "level_after pin lv (DigitalWrite p v # es) = level_after pin (if p = pin then v else lv) es"
| "level_after pin lv (PinMode p m # es) = level_after pin lv es"
| "level_after pin lv (DelayMicroseconds n # es) = level_after pin lv es"
| "level_after pin lv (DigitalRead p v # es) = level_after pin lv es"

text \<open>
  The byte whose bit \<open>k\<close> is the \<open>(n + k)\<close>-th sample of the data line, the eight bytes
  that the next burst read of a state will sample, and the line that spells a list of
  bytes, least significant bit first.
\<close>

definition sample_byte :: "(nat \<Rightarrow> bool) \<Rightarrow> nat \<Rightarrow> uint8_t" where
  "sample_byte env n = horner_sum of_bool 2 (map (\<lambda>k. env (n + k)) [0..<8])"

definition merge_byte :: "nat \<Rightarrow> uint8_t \<Rightarrow> (nat \<Rightarrow> bool) \<Rightarrow> nat \<Rightarrow> uint8_t" where
  "merge_byte i data env n =
     horner_sum of_bool 2 (map (\<lambda>k. if k < i then bit data k else env (n + k)) [0..<8])"

definition sampled_image :: "driver \<Rightarrow> ds1302_struct" where
  "sampled_image s = map (\<lambda>k. sample_byte (line s) (nreads s + 8 * k)) [0..<8]"

definition wire :: "uint8_t list \<Rightarrow> nat \<Rightarrow> bool" where
  "wire bs n = (n div 8 < length bs \<and> bit (bs ! (n div 8)) (n mod 8))"

subsection \<open>Sessions\<close>

definition is_exchange :: "call_event \<Rightarrow> bool" where
  "is_exchange c = (case c of Call_togglewrite d r \<Rightarrow> True | Call_toggleread d \<Rightarrow> True
                     | Call_start \<Rightarrow> False | Call_stop \<Rightarrow> False)"

text \<open>
  One session: a single \<open>start()\<close>, first; a single \<open>stop()\<close>, last; at least one byte
  exchange and nothing but byte exchanges in between.
\<close>

definition one_session :: "call_event list \<Rightarrow> bool" where
  "one_session cs =
     (count_list cs Call_start = 1 \<and> count_list cs Call_stop = 1 \<and>
      (case cs of [] \<Rightarrow> False
       | c # rest \<Rightarrow> c = Call_start \<and> rest \<noteq> [] \<and> last rest = Call_stop
            \<and> butlast rest \<noteq> [] \<and> list_all is_exchange (butlast rest)))"

text \<open>
  A log of calls is framed when sessions follow one another without overlap: no
  \<open>start()\<close> inside an open session, no \<open>stop()\<close> or byte exchange outside one, and no
  session left open at the end.
\<close>

fun framed_from :: "bool \<Rightarrow> call_event list \<Rightarrow> bool" where
  "framed_from opened [] = (\<not> opened)"
| "framed_from opened (Call_start # cs) = (\<not> opened \<and> framed_from True cs)"
| "framed_from opened (Call_stop # cs) = (opened \<and> framed_from False cs)"
| "framed_from opened (Call_togglewrite d r # cs) = (opened \<and> framed_from opened cs)"
| "framed_from opened (Call_toggleread d # cs) = (opened \<and> framed_from opened cs)"

definition framed :: "call_event list \<Rightarrow> bool" where
  "framed cs = framed_from False cs"

text \<open>The calls that were added to the log between the states \<open>s\<close> and \<open>s'\<close>.\<close>

definition new_calls :: "driver \<Rightarrow> driver \<Rightarrow> call_event list" where
  "new_calls s s' = drop (length (calls s)) (calls s')"

subsection \<open>Time records and bit-fields\<close>

text \<open>The calendar ranges of the seven fields of a time record.\<close>

definition valid_tm :: "tmElements_t \<Rightarrow> bool" where
  "valid_tm tm =
     (Second tm \<le> 59 \<and> Minute tm \<le> 59 \<and> Hour tm \<le> 23
      \<and> 1 \<le> Wday tm \<and> Wday tm \<le> 7 \<and> 1 \<le> Day tm \<and> Day tm \<le> 31
      \<and> 1 \<le> Month tm \<and> Month tm \<le> 12 \<and> 30 \<le> Year tm \<and> Year tm \<le> 129)"

text \<open>Two bit-fields are apart when they share no bit of the image.\<close>

definition apart :: "ds1302_field \<Rightarrow> ds1302_field \<Rightarrow> bool" where
  "apart f g =
     (case layout f of (b, lo, w) \<Rightarrow> case layout g of (b', lo', w') \<Rightarrow>
        b \<noteq> b' \<or> lo + w \<le> lo' \<or> lo' + w' \<le> lo)"

text \<open>Sample values: a time record, a driver bound to pins 2, 3 and 4.\<close>

definition tm_zero :: tmElements_t where
  "tm_zero = \<lparr>Second = 0, Minute = 0, Hour = 0, Wday = 0, Day = 0, Month = 0, Year = 0\<rparr>"

definition tm_sample :: tmElements_t where
  "tm_sample = \<lparr>Second = 45, Minute = 30, Hour = 23, Wday = 3, Day = 15, Month = 6, Year = 53\<rparr>"

definition bound :: "uint8_t list \<Rightarrow> driver" where
  "bound img = DS1302RTC 2 3 4 (initial (wire img))"

section \<open>Bit-fields of the image\<close>

lemma sdiv_nonneg: "0 \<le> (v::int) \<Longrightarrow> v sdiv 10 = v div 10"
  by (simp add: signed_divide_int_def sgn_if)

lemma smod_nonneg: "0 \<le> (v::int) \<Longrightarrow> v smod 10 = v mod 10"
  by (simp add: signed_modulo_int_def sgn_if)

lemma field_same:
  fixes x v :: uint8_t
  assumes "lo + w \<le> 8"
  shows "take_bit w (drop_bit lo ((x AND NOT (push_bit lo (mask w))) OR push_bit lo (take_bit w v)))
     = take_bit w v"
  using assms by - (rule bit_word_eqI, auto simp: bit_simps)

lemma field_other:
  fixes x v :: uint8_t
  assumes "lo + w \<le> lo' \<or> lo' + w' \<le> lo"
  shows "take_bit w' (drop_bit lo' ((x AND NOT (push_bit lo (mask w))) OR push_bit lo (take_bit w v)))
     = take_bit w' (drop_bit lo' x)"
  using assms by - (rule bit_word_eqI, auto simp: bit_simps dest: bit_imp_le_length)

lemma length_set_field [simp]: "length (set_field f v rtc) = length rtc"
  by (simp add: set_field_def split: prod.splits)

lemma layout_fits: "layout f = (b, lo, w) \<Longrightarrow> b < 8 \<and> lo + w \<le> 8"
  by (cases f) auto

lemma uint_take_bit_of_int:
  "w \<le> 8 \<Longrightarrow> uint (take_bit w (word_of_int v :: uint8_t)) = v mod 2 ^ w"
  by (simp add: unsigned_take_bit_eq uint_word_of_int_eq min_def flip: take_bit_eq_mod)

lemma get_set_same:
  assumes "length rtc = 8"
  shows "get_field f (set_field f v rtc) = v mod 2 ^ (snd (snd (layout f)))"
proof -
  obtain b lo w where l: "layout f = (b, lo, w)" by (cases "layout f") 
  from layout_fits [OF l] have b: "b < length rtc" and w: "lo + w \<le> 8" "w \<le> 8"
    using assms by simp_all
  have "get_field f (set_field f v rtc)
      = uint (take_bit w (drop_bit lo ((rtc ! b AND NOT (push_bit lo (mask w)))
                   OR push_bit lo (take_bit w (word_of_int v :: uint8_t)))))"
    using b by (simp only: get_field_def set_field_def l prod.case nth_list_update_eq)
  also have "\<dots> = uint (take_bit w (word_of_int v :: uint8_t))"
    by (simp only: field_same [OF w(1)])
  also have "\<dots> = v mod 2 ^ w"
    by (rule uint_take_bit_of_int [OF w(2)])
  finally show ?thesis by (simp add: l)
qed

lemma get_set_apart:
  assumes "length rtc = 8" and "apart f g"
  shows "get_field f (set_field g v rtc) = get_field f rtc"
proof -
  obtain b lo w where l: "layout f = (b, lo, w)" by (cases "layout f") 
  obtain b' lo' w' where l': "layout g = (b', lo', w')" by (cases "layout g") 
  from layout_fits [OF l'] have b': "b' < length rtc" using assms by simp
  show ?thesis
  proof (cases "b = b'")
    case True
    with assms l l' have d: "lo' + w' \<le> lo \<or> lo + w \<le> lo'" by (auto simp: apart_def)
    have "get_field f (set_field g v rtc)
        = uint (take_bit w (drop_bit lo ((rtc ! b' AND NOT (push_bit lo' (mask w')))
                   OR push_bit lo' (take_bit w' (word_of_int v :: uint8_t)))))"
      using b' True by (simp only: get_field_def set_field_def l l' prod.case nth_list_update_eq)
    also have "\<dots> = uint (take_bit w (drop_bit lo (rtc ! b')))"
      by (simp only: field_other [OF d])
    finally show ?thesis using True by (simp add: get_field_def l)
  next
    case False
    then show ?thesis
      by (simp add: get_field_def set_field_def l l')
  qed
qed

lemma get_memset_zero: "get_field f memset_zero = 0"
proof -
  obtain b lo w where l: "layout f = (b, lo, w)" by (cases "layout f") 
  from layout_fits [OF l] have "b < 8" by simp
  then show ?thesis by (simp add: get_field_def l memset_zero_def)
qed

lemma length_memset_zero: "length memset_zero = 8"
  by (simp add: memset_zero_def)

lemma length_write_encode: "length (write_encode tm) = 8"
  by (simp add: write_encode_def Let_def length_memset_zero)

text \<open>The value of each bit-field of the image that \<open>write_encode\<close> builds.\<close>

lemmas image_simps = get_set_same get_set_apart get_memset_zero length_memset_zero
  length_set_field apart_def

lemma enc_Seconds: "get_field rtc_Seconds (write_encode tm) = bin2bcd_l (uint (Second tm)) mod 16"
  by (simp add: write_encode_def Let_def image_simps)

lemma enc_Seconds10: "get_field rtc_Seconds10 (write_encode tm) = bin2bcd_h (uint (Second tm)) mod 8"
  by (simp add: write_encode_def Let_def image_simps)

lemma enc_Minutes: "get_field rtc_Minutes (write_encode tm) = bin2bcd_l (uint (Minute tm)) mod 16"
  by (simp add: write_encode_def Let_def image_simps)

lemma enc_Minutes10: "get_field rtc_Minutes10 (write_encode tm) = bin2bcd_h (uint (Minute tm)) mod 8"
  by (simp add: write_encode_def Let_def image_simps)

lemma enc_Hour: "get_field h24_Hour (write_encode tm) = bin2bcd_l (uint (Hour tm)) mod 16"
  by (simp add: write_encode_def Let_def image_simps)

lemma enc_Hour10: "get_field h24_Hour10 (write_encode tm) = bin2bcd_h (uint (Hour tm)) mod 4"
  by (simp add: write_encode_def Let_def image_simps)

lemma enc_hour_12_24: "get_field h24_hour_12_24 (write_encode tm) = 0"
  by (simp add: write_encode_def Let_def image_simps)

lemma enc_Day: "get_field rtc_Day (write_encode tm) = bin2bcd_l (uint (Wday tm)) mod 8"
  by (simp add: write_encode_def Let_def image_simps)

lemma enc_Date: "get_field rtc_Date (write_encode tm) = bin2bcd_l (uint (Day tm)) mod 16"
  by (simp add: write_encode_def Let_def image_simps)

lemma enc_Date10: "get_field rtc_Date10 (write_encode tm) = bin2bcd_h (uint (Day tm)) mod 4"
  by (simp add: write_encode_def Let_def image_simps)

lemma enc_Month: "get_field rtc_Month (write_encode tm) = bin2bcd_l (uint (Month tm)) mod 16"
  by (simp add: write_encode_def Let_def image_simps)

lemma enc_Month10: "get_field rtc_Month10 (write_encode tm) = bin2bcd_h (uint (Month tm)) mod 2"
  by (simp add: write_encode_def Let_def image_simps)

lemma enc_Year: "get_field rtc_Year (write_encode tm) = bin2bcd_l (uint (Year tm) - 30) mod 16"
  by (simp add: write_encode_def Let_def image_simps)

lemma enc_Year10: "get_field rtc_Year10 (write_encode tm) = bin2bcd_h (uint (Year tm) - 30) mod 16"
  by (simp add: write_encode_def Let_def image_simps)

lemma union_members:
  "get_field h12_hour_12_24 rtc = get_field h24_hour_12_24 rtc"
  "get_field h12_reserved2 rtc = get_field h24_reserved2 rtc"
  "get_field h12_Hour rtc = get_field h24_Hour rtc"
  by (simp_all add: get_field_def)

lemma enc_unused:
  "f \<in> {rtc_CH, rtc_reserved1, h24_reserved2, h12_reserved2, h12_hour_12_24,
         rtc_reserved3, rtc_reserved4, rtc_reserved5, rtc_reserved6, rtc_WP}
   \<Longrightarrow> get_field f (write_encode tm) = 0"
  by (auto simp add: union_members enc_hour_12_24)
     (simp_all add: write_encode_def Let_def image_simps)

lemma get_field_bound:
  "0 \<le> get_field f rtc" "get_field f rtc < 2 ^ snd (snd (layout f))"
  by (cases "layout f"; simp add: get_field_def unsigned_take_bit_eq)+

lemma get_field_less: "layout f = (b, lo, w) \<Longrightarrow> get_field f rtc < 2 ^ w"
  using get_field_bound(2) [of f rtc] by simp

lemma uint8_of_int: "0 \<le> x \<Longrightarrow> x < 256 \<Longrightarrow> uint (word_of_int x :: uint8_t) = x"
  by (simp add: uint_word_of_int_eq take_bit_int_eq_self)

lemma u8_bcd:
  assumes "snd (snd (layout f)) \<le> 4" and "snd (snd (layout g)) \<le> 4" and "0 \<le> k" and "k \<le> 30"
  shows "uint (word_of_int (bcd2bin (get_field f rtc) (get_field g rtc) + k) :: uint8_t)
     = bcd2bin (get_field f rtc) (get_field g rtc) + k"
proof -
  have "(2::int) ^ snd (snd (layout f)) \<le> 2 ^ 4" "(2::int) ^ snd (snd (layout g)) \<le> 2 ^ 4"
    using assms(1,2) by (simp_all only: power_increasing_iff [of 2] one_less_numeral_iff semiring_norm)
  then have "get_field f rtc < 16" "get_field g rtc < 16"
    using get_field_bound(2) [of f rtc] get_field_bound(2) [of g rtc] by simp_all
  then show ?thesis
    using get_field_bound(1) [of f rtc] get_field_bound(1) [of g rtc] assms(3,4)
    by (intro uint8_of_int) (simp_all add: bcd2bin_def)
qed

lemmas u8_bcd0 = u8_bcd [where k = 0, simplified]

lemma u8_field:
  assumes "snd (snd (layout f)) \<le> 4"
  shows "uint (word_of_int (get_field f rtc) :: uint8_t) = get_field f rtc"
proof -
  have "(2::int) ^ snd (snd (layout f)) \<le> 2 ^ 4"
    using assms by (simp only: power_increasing_iff [of 2] one_less_numeral_iff semiring_norm)
  then have "get_field f rtc < 16"
    using get_field_bound(2) [of f rtc] by simp
  then show ?thesis
    using get_field_bound(1) [of f rtc] by (intro uint8_of_int) simp_all
qed

lemma dec_Second:
  "uint (Second (read_decode rtc tm))
     = bcd2bin (get_field rtc_Seconds10 rtc) (get_field rtc_Seconds rtc)"
  by (simp add: read_decode_def Let_def u8_bcd0)

lemma dec_Minute:
  "uint (Minute (read_decode rtc tm))
     = bcd2bin (get_field rtc_Minutes10 rtc) (get_field rtc_Minutes rtc)"
  by (simp add: read_decode_def Let_def u8_bcd0)

lemma dec_Hour_24:
  "get_field h24_hour_12_24 rtc = 0 \<Longrightarrow>
   uint (Hour (read_decode rtc tm))
     = bcd2bin (get_field h24_Hour10 rtc) (get_field h24_Hour rtc)"
  by (simp add: read_decode_def Let_def u8_bcd0)

lemma dec_Hour_12:
  "get_field h24_hour_12_24 rtc \<noteq> 0 \<Longrightarrow>
   Hour (read_decode rtc tm)
     = (if bcd2bin (get_field h12_Hour10 rtc) (get_field h12_Hour rtc) + get_field h12_AM_PM rtc \<noteq> 0
        then 12 else 0)"
  by (simp add: read_decode_def Let_def)


lemma dec_Wday: "uint (Wday (read_decode rtc tm)) = get_field rtc_Day rtc"
  by (simp add: read_decode_def Let_def u8_field)

lemma dec_Day:
  "uint (Day (read_decode rtc tm))
     = bcd2bin (get_field rtc_Date10 rtc) (get_field rtc_Date rtc)"
  by (simp add: read_decode_def Let_def u8_bcd0)

lemma dec_Month:
  "uint (Month (read_decode rtc tm))
     = bcd2bin (get_field rtc_Month10 rtc) (get_field rtc_Month rtc)"
  by (simp add: read_decode_def Let_def u8_bcd0)

lemma dec_Year:
  "uint (Year (read_decode rtc tm))
     = bcd2bin (get_field rtc_Year10 rtc) (get_field rtc_Year rtc) + 30"
  using u8_bcd [of rtc_Year10 rtc_Year 30 rtc] by (simp add: read_decode_def Let_def)

lemma digits_back:
  assumes "0 \<le> x" and "x div 10 < t"
  shows "bcd2bin (bin2bcd_h x mod t) (bin2bcd_l x mod 16) = x"
proof -
  have "bin2bcd_h x mod t = x div 10"
    using assms by (simp add: bin2bcd_h_def sdiv_nonneg)
  moreover have "bin2bcd_l x mod 16 = x mod 10"
    using assms by (simp add: bin2bcd_l_def smod_nonneg)
  ultimately show ?thesis
    by (simp add: bcd2bin_def)
qed

lemma more_unit [simp]: "tmElements_t.more (read_decode rtc tm) = tmElements_t.more tm"
  by (simp add: read_decode_def Let_def)

section \<open>Protocol engine\<close>

declare togglewrite_loop.simps [simp del] toggleread_loop.simps [simp del]
  burst_read_loop.simps [simp del] burst_write_loop.simps [simp del]

lemma bitRead_eq: "bitRead v b = of_bool (bit v b)"
  by (rule bit_word_eqI) (auto simp: bitRead_def bit_simps)

lemma start_eq:
  "start s = s\<lparr>gpio := gpio s @ start_events (io s) (sclk s) (rst s),
               calls := calls s @ [Call_start]\<rparr>"
  by (simp add: start_def start_events_def note_call_def digitalWrite_def pinMode_def
      delayMicroseconds_def Let_def)

lemma stop_eq:
  "stop s = s\<lparr>gpio := gpio s @ stop_events (rst s), calls := calls s @ [Call_stop]\<rparr>"
  by (simp add: stop_def stop_events_def note_call_def digitalWrite_def
      delayMicroseconds_def Let_def)

lemma togglewrite_body_eq:
  "togglewrite_body i d r s = s\<lparr>gpio := gpio s @ write_bit_events (io s) (sclk s) d r i\<rparr>"
  by (simp add: togglewrite_body_def write_bit_events_def digitalWrite_def pinMode_def
      delayMicroseconds_def bitRead_eq Let_def)

lemma togglewrite_loop_eq:
  "i \<le> 8 \<Longrightarrow> togglewrite_loop i d r s
     = s\<lparr>gpio := gpio s @ concat (map (write_bit_events (io s) (sclk s) d r) [i..<8])\<rparr>"
proof (induction i d r s rule: togglewrite_loop.induct)
  case (1 i d r s)
  show ?case
  proof (cases "i \<le> 7")
    case True
    then have "togglewrite_loop i d r s
        = togglewrite_loop (i + 1) d r (togglewrite_body i d r s)"
      by (subst togglewrite_loop.simps) simp
    also have "\<dots> = (togglewrite_body i d r s)
        \<lparr>gpio := gpio (togglewrite_body i d r s)
           @ concat (map (write_bit_events (io s) (sclk s) d r) [i + 1..<8])\<rparr>"
      using True by (subst "1.IH") (simp_all add: togglewrite_body_eq)
    also have "\<dots> = s\<lparr>gpio := gpio s
           @ concat (map (write_bit_events (io s) (sclk s) d r) [i..<8])\<rparr>"
      using True by (simp add: togglewrite_body_eq upt_conv_Cons)
    finally show ?thesis .
  next
    case False
    with "1.prems" have "i = 8" by simp
    then show ?thesis by (subst togglewrite_loop.simps) simp
  qed
qed

lemma togglewrite_eq:
  "togglewrite d r s
     = s\<lparr>gpio := gpio s @ write_events (io s) (sclk s) d r,
          calls := calls s @ [Call_togglewrite d r]\<rparr>"
  by (simp add: togglewrite_def togglewrite_loop_eq note_call_def write_events_def)

lemma toggleread_body_eq:
  "toggleread_body i data s =
     (bitWrite data i (line s (nreads s)),
      s\<lparr>gpio := gpio s @ read_bit_events (io s) (sclk s) (line s (nreads s)),
        nreads := nreads s + 1\<rparr>)"
  by (simp add: toggleread_body_def read_bit_events_def digitalWrite_def digitalRead_def
      delayMicroseconds_def Let_def)

lemma bit_merge_byte:
  "bit (merge_byte i data env n) k \<longleftrightarrow> k < 8 \<and> (if k < i then bit data k else env (n + k))"
  by (auto simp: merge_byte_def bit_horner_sum_bit_word_iff)

lemma bit_bitWrite:
  "bit (bitWrite v b x) k \<longleftrightarrow> k < 8 \<and> (if k = b then x else bit v k)"
  by (auto simp: bitWrite_def bit_simps dest: bit_imp_le_length)

lemma merge_byte_step:
  "i \<le> 7 \<Longrightarrow> merge_byte (i + 1) (bitWrite data i (env (n + i))) env n = merge_byte i data env n"
  by (rule bit_word_eqI) (auto simp: bit_merge_byte bit_bitWrite less_Suc_eq)

lemma merge_byte_8: "merge_byte 8 data env n = data"
  by (rule bit_word_eqI) (auto simp: bit_merge_byte)

lemma toggleread_loop_eq:
  "i \<le> 8 \<Longrightarrow> nreads s = n + i \<Longrightarrow> toggleread_loop i data s
     = (merge_byte i data (line s) n,
        s\<lparr>gpio := gpio s @ concat (map (\<lambda>k. read_bit_events (io s) (sclk s) (line s (n + k))) [i..<8]),
          nreads := n + 8\<rparr>)"
proof (induction i data s rule: toggleread_loop.induct)
  case (1 i data s)
  show ?case
  proof (cases "i \<le> 7")
    case True
    let ?s' = "s\<lparr>gpio := gpio s @ read_bit_events (io s) (sclk s) (line s (n + i)),
        nreads := nreads s + 1\<rparr>"
    let ?d' = "bitWrite data i (line s (n + i))"
    have body: "toggleread_body i data s = (?d', ?s')"
      using "1.prems" by (simp add: toggleread_body_eq)
    have "toggleread_loop i data s = toggleread_loop (i + 1) ?d' ?s'"
      using True by (subst toggleread_loop.simps) (simp add: body)
    also have "\<dots> = (merge_byte (i + 1) ?d' (line ?s') n,
        ?s'\<lparr>gpio := gpio ?s' @ concat (map (\<lambda>k. read_bit_events (io ?s') (sclk ?s') (line ?s' (n + k))) [i + 1..<8]),
          nreads := n + 8\<rparr>)"
      using True "1.prems" by (intro "1.IH" [OF True body [symmetric]]) simp_all
    also have "\<dots> = (merge_byte i data (line s) n,
        s\<lparr>gpio := gpio s @ concat (map (\<lambda>k. read_bit_events (io s) (sclk s) (line s (n + k))) [i..<8]),
          nreads := n + 8\<rparr>)"
      using True merge_byte_step [OF True, of data "line s" n]
      by (simp add: upt_conv_Cons)
    finally show ?thesis .
  next
    case False
    with "1.prems" have "i = 8" by simp
    then show ?thesis using "1.prems" by (subst toggleread_loop.simps) (simp add: merge_byte_8)
  qed
qed

lemma merge_byte_0: "merge_byte 0 0 env n = sample_byte env n"
  by (simp add: merge_byte_def sample_byte_def)

lemma toggleread_eq:
  "toggleread s =
     (sample_byte (line s) (nreads s),
      s\<lparr>gpio := gpio s @ read_events (io s) (sclk s) (line s) (nreads s),
        calls := calls s @ [Call_toggleread (sample_byte (line s) (nreads s))],
        nreads := nreads s + 8\<rparr>)"
  by (simp add: toggleread_def toggleread_loop_eq [where n = "nreads s"] merge_byte_0
      note_call_def read_events_def)

section \<open>The two burst iterations\<close>

lemma burst_write_loop_eq:
  "i \<le> 8 \<Longrightarrow> burst_write_loop i p s
     = s\<lparr>gpio := gpio s @ concat (map (\<lambda>k. write_events (io s) (sclk s) (p ! k) 0) [i..<8]),
          calls := calls s @ map (\<lambda>k. Call_togglewrite (p ! k) 0) [i..<8]\<rparr>"
proof (induction i p s rule: burst_write_loop.induct)
  case (1 i p s)
  show ?case
  proof (cases "i < 8")
    case True
    have "burst_write_loop i p s = burst_write_loop (i + 1) p (togglewrite (p ! i) 0 s)"
      using True by (subst burst_write_loop.simps) simp
    also have "\<dots> = (togglewrite (p ! i) 0 s)
        \<lparr>gpio := gpio (togglewrite (p ! i) 0 s)
            @ concat (map (\<lambda>k. write_events (io s) (sclk s) (p ! k) 0) [i + 1..<8]),
         calls := calls (togglewrite (p ! i) 0 s)
            @ map (\<lambda>k. Call_togglewrite (p ! k) 0) [i + 1..<8]\<rparr>"
      using True by (subst "1.IH") (simp_all add: togglewrite_eq)
    also have "\<dots> = s\<lparr>gpio := gpio s @ concat (map (\<lambda>k. write_events (io s) (sclk s) (p ! k) 0) [i..<8]),
          calls := calls s @ map (\<lambda>k. Call_togglewrite (p ! k) 0) [i..<8]\<rparr>"
      using True by (simp add: togglewrite_eq upt_conv_Cons)
    finally show ?thesis .
  next
    case False
    with "1.prems" have "i = 8" by simp
    then show ?thesis by (subst burst_write_loop.simps) simp
  qed
qed

lemma burst_read_loop_eq:
  "i \<le> 8 \<Longrightarrow> nreads s = n + 8 * i \<Longrightarrow> burst_read_loop i p s
     = (p @ map (\<lambda>k. sample_byte (line s) (n + 8 * k)) [i..<8],
        s\<lparr>gpio := gpio s @ concat (map (\<lambda>k. read_events (io s) (sclk s) (line s) (n + 8 * k)) [i..<8]),
          calls := calls s @ map (\<lambda>k. Call_toggleread (sample_byte (line s) (n + 8 * k))) [i..<8],
          nreads := n + 64\<rparr>)"
proof (induction i p s rule: burst_read_loop.induct)
  case (1 i p s)
  show ?case
  proof (cases "i < 8")
    case True
    let ?b = "sample_byte (line s) (n + 8 * i)"
    let ?s' = "s\<lparr>gpio := gpio s @ read_events (io s) (sclk s) (line s) (n + 8 * i),
        calls := calls s @ [Call_toggleread ?b],
        nreads := nreads s + 8\<rparr>"
    have rd: "toggleread s = (?b, ?s')"
      using "1.prems" by (simp add: toggleread_eq)
    have "burst_read_loop i p s = burst_read_loop (i + 1) (p @ [?b]) ?s'"
      using True by (subst burst_read_loop.simps) (simp add: rd)
    also have "\<dots> = ((p @ [?b]) @ map (\<lambda>k. sample_byte (line ?s') (n + 8 * k)) [i + 1..<8],
        ?s'\<lparr>gpio := gpio ?s' @ concat (map (\<lambda>k. read_events (io ?s') (sclk ?s') (line ?s') (n + 8 * k)) [i + 1..<8]),
          calls := calls ?s' @ map (\<lambda>k. Call_toggleread (sample_byte (line ?s') (n + 8 * k))) [i + 1..<8],
          nreads := n + 64\<rparr>)"
      using True "1.prems" by (intro "1.IH" [OF True rd [symmetric]]) simp_all
    also have "\<dots> = (p @ map (\<lambda>k. sample_byte (line s) (n + 8 * k)) [i..<8],
        s\<lparr>gpio := gpio s @ concat (map (\<lambda>k. read_events (io s) (sclk s) (line s) (n + 8 * k)) [i..<8]),
          calls := calls s @ map (\<lambda>k. Call_toggleread (sample_byte (line s) (n + 8 * k))) [i..<8],
          nreads := n + 64\<rparr>)"
      using True by (simp add: upt_conv_Cons)
    finally show ?thesis .
  next
    case False
    with "1.prems" have "i = 8" by simp
    then show ?thesis using "1.prems" by (subst burst_read_loop.simps) simp
  qed
qed

section \<open>Operations\<close>

lemma clock_burst_write_eq:
  "clock_burst_write p s =
     s\<lparr>gpio := gpio s @ start_events (io s) (sclk s) (rst s)
           @ write_events (io s) (sclk s) DS1302_CLOCK_BURST_WRITE 0
           @ concat (map (\<lambda>k. write_events (io s) (sclk s) (p ! k) 0) [0..<8])
           @ stop_events (rst s),
       calls := calls s @ [Call_start, Call_togglewrite DS1302_CLOCK_BURST_WRITE 0]
           @ map (\<lambda>k. Call_togglewrite (p ! k) 0) [0..<8] @ [Call_stop]\<rparr>"
  by (simp add: clock_burst_write_def Let_def start_eq togglewrite_eq burst_write_loop_eq stop_eq)

lemma clock_burst_read_eq:
  "clock_burst_read s =
     (sampled_image s,
      s\<lparr>gpio := gpio s @ start_events (io s) (sclk s) (rst s)
           @ write_events (io s) (sclk s) DS1302_CLOCK_BURST_READ 1
           @ concat (map (\<lambda>k. read_events (io s) (sclk s) (line s) (nreads s + 8 * k)) [0..<8])
           @ stop_events (rst s),
        calls := calls s @ [Call_start, Call_togglewrite DS1302_CLOCK_BURST_READ 1]
           @ map Call_toggleread (sampled_image s) @ [Call_stop],
        nreads := nreads s + 64\<rparr>)"
  by (simp add: clock_burst_read_def Let_def start_eq togglewrite_eq
      burst_read_loop_eq [where n = "nreads s"] stop_eq sampled_image_def comp_def)

lemma write_reg_eq:
  "write_reg a d s =
     s\<lparr>gpio := gpio s @ start_events (io s) (sclk s) (rst s)
           @ write_events (io s) (sclk s) (word_of_int (bitClear_int a DS1302_READBIT)) 0
           @ write_events (io s) (sclk s) d 0
           @ stop_events (rst s),
       calls := calls s @ [Call_start,
           Call_togglewrite (word_of_int (bitClear_int a DS1302_READBIT)) 0,
           Call_togglewrite d 0, Call_stop]\<rparr>"
  by (simp add: write_reg_def Let_def start_eq togglewrite_eq stop_eq)

lemma read_reg_eq:
  "read_reg a s =
     (sample_byte (line s) (nreads s),
      s\<lparr>gpio := gpio s @ start_events (io s) (sclk s) (rst s)
           @ write_events (io s) (sclk s) (word_of_int (bitSet_int a DS1302_READBIT)) 1
           @ read_events (io s) (sclk s) (line s) (nreads s)
           @ stop_events (rst s),
        calls := calls s @ [Call_start,
           Call_togglewrite (word_of_int (bitSet_int a DS1302_READBIT)) 1,
           Call_toggleread (sample_byte (line s) (nreads s)), Call_stop],
        nreads := nreads s + 8\<rparr>)"
  by (simp add: read_reg_def Let_def start_eq togglewrite_eq toggleread_eq stop_eq)

section \<open>Lines and images\<close>

lemma bit_sample_byte: "bit (sample_byte env n) k \<longleftrightarrow> k < 8 \<and> env (n + k)"
  by (auto simp: sample_byte_def bit_horner_sum_bit_word_iff)

lemma sample_byte_wire:
  assumes "k < length bs"
  shows "sample_byte (wire bs) (8 * k) = bs ! k"
proof (rule bit_word_eqI)
  fix j assume "j < LENGTH(8)"
  then have j: "j < 8" by simp
  then have "(8 * k + j) div 8 = k" "(8 * k + j) mod 8 = j" by simp_all
  with j assms show "bit (sample_byte (wire bs) (8 * k)) j \<longleftrightarrow> bit (bs ! k) j"
    by (simp add: bit_sample_byte wire_def)
qed

lemma sampled_image_wire:
  assumes "length img = 8" and "line s = wire img" and "nreads s = 0"
  shows "sampled_image s = img"
proof -
  have "sampled_image s = map (\<lambda>k. img ! k) [0..<length img]"
    unfolding sampled_image_def using assms
    by (intro map_cong) (simp_all add: sample_byte_wire)
  then show ?thesis by (simp add: map_nth)
qed

lemma sampled_image_bound: "length img = 8 \<Longrightarrow> sampled_image (bound img) = img"
  by (rule sampled_image_wire) (simp_all add: bound_def DS1302RTC_def initial_def)

lemma read_tm_eq:
  "read_tm tm s = (True, read_decode (sampled_image s) tm, snd (clock_burst_read s))"
  by (simp add: read_tm_def clock_burst_read_eq)

section \<open>Sessions\<close>

lemma framed_from_start:
  "framed_from b (xs @ Call_start # ys) = (framed_from b xs \<and> framed_from False (Call_start # ys))"
proof (induction xs arbitrary: b)
  case Nil
  show ?case by simp
next
  case (Cons c cs)
  then show ?case by (cases c) auto
qed

lemma framed_from_exchanges:
  "list_all is_exchange xs \<Longrightarrow> framed_from True (xs @ ys) = framed_from True ys"
proof (induction xs)
  case Nil
  show ?case by simp
next
  case (Cons c cs)
  then show ?case by (cases c) (simp_all add: is_exchange_def)
qed

lemma framed_session:
  assumes "list_all is_exchange xs"
  shows "framed (cs @ Call_start # xs @ [Call_stop]) = framed cs"
  using assms by (simp add: framed_def framed_from_start framed_from_exchanges)

lemma one_sessionI:
  assumes "list_all is_exchange xs" and "xs \<noteq> []"
  shows "one_session (Call_start # xs @ [Call_stop])"
proof -
  have "count_list xs Call_start = 0" "count_list xs Call_stop = 0"
    using assms(1) by (induction xs) (auto simp: is_exchange_def)
  then show ?thesis
    using assms by (simp add: one_session_def)
qed

lemma level_after_append:
  "level_after pin lv (xs @ ys) = level_after pin (level_after pin lv xs) ys"
  by (induction pin lv xs rule: level_after.induct) simp_all

lemma upt_0_8: "[0..<8] = [0, 1, 2, 3, 4, 5, 6, 7]"
  by (simp add: upt_conv_Cons)

lemma level_after_write_events:
  "level_after pclk lv (write_events pio pclk data release) = (if release \<noteq> 0 then HIGH else LOW)"
  by (simp add: write_events_def write_bit_events_def upt_0_8)

lemma last_write_events:
  "last (write_events pio pclk data release)
     = (if release \<noteq> 0 then PinMode pio INPUT else DelayMicroseconds 1)"
  by (simp add: write_events_def write_bit_events_def upt_0_8)

lemma map_nth_8: "length p = 8 \<Longrightarrow> map (\<lambda>k. f (p ! k)) [0..<8] = map f p"
proof -
  assume "length p = 8"
  then have "map f (map ((!) p) [0..<length p]) = map (\<lambda>k. f (p ! k)) [0..<8]"
    by (simp add: comp_def)
  then show ?thesis by (simp only: map_nth)
qed

lemma enable_address: "(word_of_int (bitClear_int DS1302_ENABLE DS1302_READBIT) :: uint8_t) = 0x8E"
  by (simp add: bitClear_int_def DS1302_ENABLE_def DS1302_READBIT_def)

lemma trickle_address: "(word_of_int (bitClear_int DS1302_TRICKLE DS1302_READBIT) :: uint8_t) = 0x90"
  by (simp add: bitClear_int_def DS1302_TRICKLE_def DS1302_READBIT_def)

lemma write_tm_eq:
  "write_tm tm s =
     (True, tm, clock_burst_write (write_encode tm)
        (write_reg DS1302_TRICKLE 0 (write_reg DS1302_ENABLE 0 s)))"
  by (simp add: write_tm_def Let_def)

lemma calls_write_tm:
  "calls (snd (snd (write_tm tm s))) =
     calls s @ [Call_start, Call_togglewrite 0x8E 0, Call_togglewrite 0 0, Call_stop,
                Call_start, Call_togglewrite 0x90 0, Call_togglewrite 0 0, Call_stop,
                Call_start, Call_togglewrite 0xBE 0]
       @ map (\<lambda>b. Call_togglewrite b 0) (write_encode tm) @ [Call_stop]"
  using map_nth_8 [OF length_write_encode, of "\<lambda>b. Call_togglewrite b 0" tm]
  by (simp add: write_tm_eq clock_burst_write_eq write_reg_eq enable_address trickle_address
      DS1302_CLOCK_BURST_WRITE_def)

lemma concat_map_nth_8:
  assumes "length p = 8"
  shows "concat (map (\<lambda>k. f (p ! k)) [0..<8]) = concat (map f p)"
proof -
  have "map (\<lambda>k. f (p ! k)) [0..<8] = map f p"
    using assms by (rule map_nth_8)
  then show ?thesis by simp
qed

lemma gpio_write_tm:
  "gpio (snd (snd (write_tm tm s))) =
     gpio s
       @ start_events (io s) (sclk s) (rst s)
       @ write_events (io s) (sclk s) 0x8E 0 @ write_events (io s) (sclk s) 0 0
       @ stop_events (rst s)
       @ start_events (io s) (sclk s) (rst s)
       @ write_events (io s) (sclk s) 0x90 0 @ write_events (io s) (sclk s) 0 0
       @ stop_events (rst s)
       @ start_events (io s) (sclk s) (rst s)
       @ write_events (io s) (sclk s) 0xBE 0
       @ concat (map (\<lambda>b. write_events (io s) (sclk s) b 0) (write_encode tm))
       @ stop_events (rst s)"
  using concat_map_nth_8 [OF length_write_encode, of "\<lambda>b. write_events (io s) (sclk s) b 0" tm]
  by (simp add: write_tm_eq clock_burst_write_eq write_reg_eq enable_address trickle_address
      DS1302_CLOCK_BURST_WRITE_def)


lemma session_appended:
  assumes "calls s' = calls s @ Call_start # xs @ [Call_stop]"
    and "list_all is_exchange xs" and "xs \<noteq> []"
  shows "one_session (new_calls s s') \<and> calls s' = calls s @ new_calls s s'
    \<and> framed (calls s') = framed (calls s)"
proof -
  have n: "new_calls s s' = Call_start # xs @ [Call_stop]"
    by (simp add: new_calls_def assms(1))
  show ?thesis
    using assms(2,3) by (simp add: n assms(1) one_sessionI framed_session)
qed

lemma exchanges_toggleread: "list_all is_exchange (map Call_toggleread bs)"
  by (induction bs) (simp_all add: is_exchange_def)

lemma exchanges_togglewrite: "list_all is_exchange (map (\<lambda>k. Call_togglewrite (f k) r) ks)"
  by (induction ks) (simp_all add: is_exchange_def)

lemma session_clock_burst_read:
  "one_session (new_calls s (snd (clock_burst_read s)))
   \<and> calls (snd (clock_burst_read s)) = calls s @ new_calls s (snd (clock_burst_read s))
   \<and> framed (calls (snd (clock_burst_read s))) = framed (calls s)"
  by (rule session_appended [where xs = "Call_togglewrite DS1302_CLOCK_BURST_READ 1
        # map Call_toggleread (sampled_image s)"])
     (simp_all add: clock_burst_read_eq exchanges_toggleread is_exchange_def)

lemma session_clock_burst_write:
  "one_session (new_calls s (clock_burst_write p s))
   \<and> calls (clock_burst_write p s) = calls s @ new_calls s (clock_burst_write p s)
   \<and> framed (calls (clock_burst_write p s)) = framed (calls s)"
  by (rule session_appended [where xs = "Call_togglewrite DS1302_CLOCK_BURST_WRITE 0
        # map (\<lambda>k. Call_togglewrite (p ! k) 0) [0..<8]"])
     (simp_all add: clock_burst_write_eq exchanges_togglewrite is_exchange_def)

lemma session_read_reg:
  "one_session (new_calls s (snd (read_reg a s)))
   \<and> calls (snd (read_reg a s)) = calls s @ new_calls s (snd (read_reg a s))
   \<and> framed (calls (snd (read_reg a s))) = framed (calls s)"
  by (rule session_appended [where xs = "[Call_togglewrite (word_of_int (bitSet_int a DS1302_READBIT)) 1,
           Call_toggleread (sample_byte (line s) (nreads s))]"])
     (simp_all add: read_reg_eq is_exchange_def)

lemma session_write_reg:
  "one_session (new_calls s (write_reg a d s))
   \<and> calls (write_reg a d s) = calls s @ new_calls s (write_reg a d s)
   \<and> framed (calls (write_reg a d s)) = framed (calls s)"
  by (rule session_appended [where xs = "[Call_togglewrite (word_of_int (bitClear_int a DS1302_READBIT)) 0,
           Call_togglewrite d 0]"])
     (simp_all add: write_reg_eq is_exchange_def)

section \<open>The claims\<close>

text \<open>
  C1 (hour layout selection).  The claim: with the 12/24 bit and the AM/PM bit both
  set, \<open>read\<close> yields the 12-hour value plus 12.  The code does not: in
  \<open>bcd2bin(...) + rtc.h12.AM_PM?12:0\<close> the sum is the condition, so every such image
  decodes to hour 12.  Evaluated here on the image whose hour byte is \<open>0xA3\<close>
  (12-hour layout, PM, hour digits 03): the claim expects 15, the code stores 12.
\<close>

theorem read_pm_hour_is_12:
  "get_field h12_hour_12_24 [0, 0, 0xA3, 0, 0, 0, 0, 0] = 1
   \<and> get_field h12_AM_PM [0, 0, 0xA3, 0, 0, 0, 0, 0] = 1
   \<and> bcd2bin (get_field h12_Hour10 [0, 0, 0xA3, 0, 0, 0, 0, 0])
        (get_field h12_Hour [0, 0, 0xA3, 0, 0, 0, 0, 0]) = 3
   \<and> Hour (fst (snd (read_tm tm_zero (bound [0, 0, 0xA3, 0, 0, 0, 0, 0])))) = 12"
  by (simp add: read_tm_eq sampled_image_bound read_decode_def Let_def get_field_def bcd2bin_def)

text \<open>
  C2 (burst round trip).  For every time record whose fields are in their calendar
  ranges, the image built by \<open>write\<close> decodes, by the assignments of \<open>read\<close>, to
  the same record, whatever the output record held before; and \<open>read\<close> returns
  that record from any driver state whose data line carries the image.
\<close>

theorem codec_roundtrip:
  assumes "valid_tm tm"
  shows "read_decode (write_encode tm) tm0 = tm
    \<and> fst (snd (read_tm tm0 (s\<lparr>line := wire (write_encode tm), nreads := 0\<rparr>))) = tm"
proof -
  let ?r = "read_decode (write_encode tm) tm0"
  from assms have r: "uint (Second tm) \<le> 59" "uint (Minute tm) \<le> 59" "uint (Hour tm) \<le> 23"
    "uint (Wday tm) \<le> 7" "uint (Day tm) \<le> 31" "uint (Month tm) \<le> 12"
    "30 \<le> uint (Year tm)" "uint (Year tm) \<le> 129"
    by (simp_all add: valid_tm_def word_le_def)
  have "uint (Second ?r) = uint (Second tm)"
    using r(1) by (simp add: dec_Second enc_Seconds enc_Seconds10 digits_back)
  moreover have "uint (Minute ?r) = uint (Minute tm)"
    using r(2) by (simp add: dec_Minute enc_Minutes enc_Minutes10 digits_back)
  moreover have "uint (Hour ?r) = uint (Hour tm)"
    using r(3) by (simp add: dec_Hour_24 enc_hour_12_24 enc_Hour enc_Hour10 digits_back)
  moreover have "uint (Wday ?r) = uint (Wday tm)"
    using r(4) by (simp add: dec_Wday enc_Day bin2bcd_l_def smod_nonneg)
  moreover have "uint (Day ?r) = uint (Day tm)"
    using r(5) by (simp add: dec_Day enc_Date enc_Date10 digits_back)
  moreover have "uint (Month ?r) = uint (Month tm)"
    using r(6) by (simp add: dec_Month enc_Month enc_Month10 digits_back)
  moreover have "uint (Year ?r) = uint (Year tm)"
    using r(7,8) by (simp add: dec_Year enc_Year enc_Year10 digits_back)
  ultimately have codec: "?r = tm"
    by (intro tmElements_t.equality) (simp_all add: word_uint_eq_iff)
  have "sampled_image (s\<lparr>line := wire (write_encode tm), nreads := 0\<rparr>) = write_encode tm"
    by (rule sampled_image_wire) (simp_all add: length_write_encode)
  then show ?thesis
    by (simp add: codec read_tm_eq)
qed

text \<open>The concrete record of the claim, 23:30:45 on day 15 of month 6, weekday 3, year 53.\<close>

theorem codec_roundtrip_witness:
  "valid_tm tm_sample \<and> read_decode (write_encode tm_sample) tm_zero = tm_sample"
  using codec_roundtrip [of tm_sample tm_zero] by (simp add: valid_tm_def tm_sample_def)

text \<open>
  C3 (unconditional success).  \<open>read\<close>, \<open>write\<close> and \<open>set\<close> return \<open>true\<close> for
  every record, every time value, every conversion function and every driver state,
  hence whatever levels the data line delivers.
\<close>

theorem operations_report_success:
  "fst (read_tm tm s) = True \<and> fst (write_tm tm s) = True
   \<and> fst (set_time breakTime tm0 t s) = True"
  by (simp add: read_tm_eq write_tm_eq set_time_def Let_def)

text \<open>
  C4 (write clears protection and trickle charge first).  For every record and state,
  \<open>write\<close> runs three sessions in this order: address \<open>0x8E\<close> with data 0, address
  \<open>0x90\<close> with data 0, then the burst-write command \<open>0xBE\<close> followed by the eight bytes
  of the image.  On the pins, these are the calls of \<open>start()\<close>, of the serial write of
  each of these bytes, bit by bit on the data and clock lines without release, and of
  \<open>stop()\<close>, three times over and nothing else.  In that image the clock-halt bit, the
  write-protect bit, every reserved bit and the 12/24 bit (through either member of the
  union) are 0.
\<close>

theorem write_tm_clears_then_bursts:
  "calls (snd (snd (write_tm tm s))) =
     calls s @ [Call_start, Call_togglewrite 0x8E 0, Call_togglewrite 0 0, Call_stop,
                Call_start, Call_togglewrite 0x90 0, Call_togglewrite 0 0, Call_stop,
                Call_start, Call_togglewrite 0xBE 0]
       @ map (\<lambda>b. Call_togglewrite b 0) (write_encode tm) @ [Call_stop]
   \<and> gpio (snd (snd (write_tm tm s))) =
       gpio s
         @ start_events (io s) (sclk s) (rst s)
         @ write_events (io s) (sclk s) 0x8E 0 @ write_events (io s) (sclk s) 0 0
         @ stop_events (rst s)
         @ start_events (io s) (sclk s) (rst s)
         @ write_events (io s) (sclk s) 0x90 0 @ write_events (io s) (sclk s) 0 0
         @ stop_events (rst s)
         @ start_events (io s) (sclk s) (rst s)
         @ write_events (io s) (sclk s) 0xBE 0
         @ concat (map (\<lambda>b. write_events (io s) (sclk s) b 0) (write_encode tm))
         @ stop_events (rst s)
   \<and> length (write_encode tm) = 8
   \<and> get_field rtc_CH (write_encode tm) = 0
   \<and> get_field rtc_reserved1 (write_encode tm) = 0
   \<and> get_field h24_reserved2 (write_encode tm) = 0
   \<and> get_field h24_hour_12_24 (write_encode tm) = 0
   \<and> get_field h12_reserved2 (write_encode tm) = 0
   \<and> get_field h12_hour_12_24 (write_encode tm) = 0
   \<and> get_field rtc_reserved3 (write_encode tm) = 0
   \<and> get_field rtc_reserved4 (write_encode tm) = 0
   \<and> get_field rtc_reserved5 (write_encode tm) = 0
   \<and> get_field rtc_reserved6 (write_encode tm) = 0
   \<and> get_field rtc_WP (write_encode tm) = 0"
  by (simp only: calls_write_tm gpio_write_tm length_write_encode)
     (simp add: enc_unused enc_hour_12_24)

text \<open>
  C5 (year offset).  The claim's example does not hold: \<open>write\<close> encodes year 53 with
  tens digit 2 (chip year 23), not 5, and \<open>read\<close> decodes tens 5, units 3 to 83, not 53.
\<close>

theorem year_example_counterexample:
  "get_field rtc_Year10 (write_encode tm_sample) \<noteq> 5
   \<and> Year (read_decode [0, 0, 0, 0, 0, 0, 0x53, 0] tm_zero) \<noteq> 53"
proof -
  have "get_field rtc_Year10 (write_encode tm_sample) = 2"
    by (simp add: enc_Year10 tm_sample_def bin2bcd_h_def sdiv_nonneg)
  moreover have "Year (read_decode [0, 0, 0, 0, 0, 0, 0x53, 0] tm_zero) = 83"
    by (simp add: read_decode_def Let_def get_field_def bcd2bin_def)
  ultimately show ?thesis by simp
qed

text \<open>
  C5 as amended.  \<open>read\<close> stores the decoded chip year plus 30, for every image.
  \<open>write\<close> stores in the two year fields what the tens and units macros make of the
  year minus 30, cut to four bits each; for a year from 30 to 129 these are the decimal
  digits of the year minus 30, they decode to the year minus 30, and \<open>read\<close> gives the
  year back.  Year 53 is encoded as tens 2, units 3, and tens 2, units 3 decode to 53.
\<close>

theorem year_offset:
  "uint (Year (read_decode rtc tm0))
           = bcd2bin (get_field rtc_Year10 rtc) (get_field rtc_Year rtc) + 30
   \<and> get_field rtc_Year10 (write_encode tm) = bin2bcd_h (uint (Year tm) - 30) mod 16
   \<and> get_field rtc_Year (write_encode tm) = bin2bcd_l (uint (Year tm) - 30) mod 16
   \<and> (30 \<le> Year tm \<and> Year tm \<le> 129 \<longrightarrow>
         get_field rtc_Year10 (write_encode tm) = (uint (Year tm) - 30) div 10
       \<and> get_field rtc_Year (write_encode tm) = (uint (Year tm) - 30) mod 10
       \<and> bcd2bin (get_field rtc_Year10 (write_encode tm)) (get_field rtc_Year (write_encode tm))
            = uint (Year tm) - 30
       \<and> Year (read_decode (write_encode tm) tm0) = Year tm)
   \<and> get_field rtc_Year10 (write_encode tm_sample) = 2
   \<and> get_field rtc_Year (write_encode tm_sample) = 3
   \<and> Year (read_decode [0, 0, 0, 0, 0, 0, 0x23, 0] tm_zero) = 53"
proof -
  have in_range: "get_field rtc_Year10 (write_encode tm) = (uint (Year tm) - 30) div 10
       \<and> get_field rtc_Year (write_encode tm) = (uint (Year tm) - 30) mod 10
       \<and> bcd2bin (get_field rtc_Year10 (write_encode tm)) (get_field rtc_Year (write_encode tm))
            = uint (Year tm) - 30
       \<and> Year (read_decode (write_encode tm) tm0) = Year tm"
    if "30 \<le> Year tm" and "Year tm \<le> 129"
  proof -
    from that have r: "0 \<le> uint (Year tm) - 30" "uint (Year tm) - 30 \<le> 99"
      by (simp_all add: word_le_def)
    then have d: "0 \<le> (uint (Year tm) - 30) div 10" "(uint (Year tm) - 30) div 10 < 16"
      by simp_all
    have h: "get_field rtc_Year10 (write_encode tm) = (uint (Year tm) - 30) div 10"
      using r d by (simp add: enc_Year10 bin2bcd_h_def sdiv_nonneg)
    have l: "get_field rtc_Year (write_encode tm) = (uint (Year tm) - 30) mod 10"
      using r by (simp add: enc_Year bin2bcd_l_def smod_nonneg)
    have b: "bcd2bin ((uint (Year tm) - 30) div 10) ((uint (Year tm) - 30) mod 10)
        = uint (Year tm) - 30"
      by (simp add: bcd2bin_def)
    have "uint (Year (read_decode (write_encode tm) tm0)) = uint (Year tm)"
      by (simp add: dec_Year h l b)
    then have "Year (read_decode (write_encode tm) tm0) = Year tm"
      by (simp add: word_uint_eq_iff)
    then show ?thesis
      by (simp add: h l b)
  qed
  have s: "get_field rtc_Year10 (write_encode tm_sample) = 2"
    "get_field rtc_Year (write_encode tm_sample) = 3"
    by (simp_all add: enc_Year10 enc_Year tm_sample_def bin2bcd_h_def bin2bcd_l_def
        sdiv_nonneg smod_nonneg)
  have c: "Year (read_decode [0, 0, 0, 0, 0, 0, 0x23, 0] tm_zero) = 53"
    by (simp add: read_decode_def Let_def get_field_def bcd2bin_def)
  have u: "uint (Year (read_decode rtc tm0))
      = bcd2bin (get_field rtc_Year10 rtc) (get_field rtc_Year rtc) + 30"
    "get_field rtc_Year10 (write_encode tm) = bin2bcd_h (uint (Year tm) - 30) mod 16"
    "get_field rtc_Year (write_encode tm) = bin2bcd_l (uint (Year tm) - 30) mod 16"
    by (rule dec_Year, rule enc_Year10, rule enc_Year)
  show ?thesis
    using u in_range s c by blast
qed

theorem year_offset_witness:
  "30 \<le> Year tm_sample \<and> Year tm_sample \<le> 129 \<and> Year tm_sample = 53
   \<and> get_field rtc_Year10 (write_encode tm_sample) = 2
   \<and> get_field rtc_Year (write_encode tm_sample) = 3
   \<and> Year (read_decode (write_encode tm_sample) tm_zero) = 53"
  using year_offset [of rtc tm_zero tm_sample] by (simp add: tm_sample_def)

text \<open>
  C6 (BCD round trip).  For every integer from 0 to 99, the tens and units macros give
  two decimal digits and \<open>bcd2bin\<close> of this pair is the integer again.
\<close>

theorem bcd_roundtrip:
  assumes "0 \<le> v" and "v \<le> 99"
  shows "bcd2bin (bin2bcd_h v) (bin2bcd_l v) = v
     \<and> 0 \<le> bin2bcd_h v \<and> bin2bcd_h v \<le> 9 \<and> 0 \<le> bin2bcd_l v \<and> bin2bcd_l v \<le> 9"
proof -
  have h: "bin2bcd_h v = v div 10" and l: "bin2bcd_l v = v mod 10"
    using assms by (simp_all add: bin2bcd_h_def bin2bcd_l_def sdiv_nonneg smod_nonneg)
  have "bcd2bin (v div 10) (v mod 10) = v"
    by (simp add: bcd2bin_def)
  moreover have "0 \<le> v div 10" "v div 10 \<le> 9" "0 \<le> v mod 10" "v mod 10 \<le> 9"
    using assms by simp_all
  ultimately show ?thesis
    by (simp add: h l)
qed

theorem bcd_roundtrip_witness:
  "(0::int) \<le> 59 \<and> (59::int) \<le> 99 \<and> bcd2bin (bin2bcd_h 59) (bin2bcd_l 59) = 59
     \<and> bin2bcd_h 59 = 5 \<and> bin2bcd_l 59 = 9"
  using bcd_roundtrip [of 59]
  by (simp add: bin2bcd_h_def bin2bcd_l_def sdiv_nonneg smod_nonneg)

text \<open>
  C7 (session framing).  Each of the four transfer operations adds to the log of calls
  exactly one session: one \<open>start()\<close>, first, one \<open>stop()\<close>, last, and only byte exchanges,
  at least one, in between.  The log after the operation is framed exactly when the
  log before it was, so sessions never overlap, within an operation or across any
  sequence of them.  On the pins, the calls of \<open>start()\<close> come first, those of \<open>stop()\<close>
  last, and the byte exchanges lie between them.
\<close>

theorem session_framing:
  "(one_session (new_calls s (snd (clock_burst_read s)))
    \<and> calls (snd (clock_burst_read s)) = calls s @ new_calls s (snd (clock_burst_read s))
    \<and> framed (calls (snd (clock_burst_read s))) = framed (calls s)
    \<and> gpio (snd (clock_burst_read s)) =
        gpio s @ start_events (io s) (sclk s) (rst s)
          @ write_events (io s) (sclk s) DS1302_CLOCK_BURST_READ 1
          @ concat (map (\<lambda>k. read_events (io s) (sclk s) (line s) (nreads s + 8 * k)) [0..<8])
          @ stop_events (rst s))
   \<and> (one_session (new_calls s (clock_burst_write p s))
    \<and> calls (clock_burst_write p s) = calls s @ new_calls s (clock_burst_write p s)
    \<and> framed (calls (clock_burst_write p s)) = framed (calls s)
    \<and> gpio (clock_burst_write p s) =
        gpio s @ start_events (io s) (sclk s) (rst s)
          @ write_events (io s) (sclk s) DS1302_CLOCK_BURST_WRITE 0
          @ concat (map (\<lambda>k. write_events (io s) (sclk s) (p ! k) 0) [0..<8])
          @ stop_events (rst s))
   \<and> (one_session (new_calls s (snd (read_reg a s)))
    \<and> calls (snd (read_reg a s)) = calls s @ new_calls s (snd (read_reg a s))
    \<and> framed (calls (snd (read_reg a s))) = framed (calls s)
    \<and> gpio (snd (read_reg a s)) =
        gpio s @ start_events (io s) (sclk s) (rst s)
          @ write_events (io s) (sclk s) (word_of_int (bitSet_int a DS1302_READBIT)) 1
          @ read_events (io s) (sclk s) (line s) (nreads s)
          @ stop_events (rst s))
   \<and> (one_session (new_calls s (write_reg a d s))
    \<and> calls (write_reg a d s) = calls s @ new_calls s (write_reg a d s)
    \<and> framed (calls (write_reg a d s)) = framed (calls s)
    \<and> gpio (write_reg a d s) =
        gpio s @ start_events (io s) (sclk s) (rst s)
          @ write_events (io s) (sclk s) (word_of_int (bitClear_int a DS1302_READBIT)) 0
          @ write_events (io s) (sclk s) d 0
          @ stop_events (rst s))"
proof -
  have "gpio (snd (clock_burst_read s)) =
        gpio s @ start_events (io s) (sclk s) (rst s)
          @ write_events (io s) (sclk s) DS1302_CLOCK_BURST_READ 1
          @ concat (map (\<lambda>k. read_events (io s) (sclk s) (line s) (nreads s + 8 * k)) [0..<8])
          @ stop_events (rst s)"
    by (simp add: clock_burst_read_eq)
  moreover have "gpio (clock_burst_write p s) =
        gpio s @ start_events (io s) (sclk s) (rst s)
          @ write_events (io s) (sclk s) DS1302_CLOCK_BURST_WRITE 0
          @ concat (map (\<lambda>k. write_events (io s) (sclk s) (p ! k) 0) [0..<8])
          @ stop_events (rst s)"
    by (simp add: clock_burst_write_eq)
  moreover have "gpio (snd (read_reg a s)) =
        gpio s @ start_events (io s) (sclk s) (rst s)
          @ write_events (io s) (sclk s) (word_of_int (bitSet_int a DS1302_READBIT)) 1
          @ read_events (io s) (sclk s) (line s) (nreads s)
          @ stop_events (rst s)"
    by (simp add: read_reg_eq)
  moreover have "gpio (write_reg a d s) =
        gpio s @ start_events (io s) (sclk s) (rst s)
          @ write_events (io s) (sclk s) (word_of_int (bitClear_int a DS1302_READBIT)) 0
          @ write_events (io s) (sclk s) d 0
          @ stop_events (rst s)"
    by (simp add: write_reg_eq)
  ultimately show ?thesis
    using session_clock_burst_read [of s] session_clock_burst_write [of s p]
      session_read_reg [of s a] session_write_reg [of s a d]
    by blast
qed

text \<open>
  C8 (serial write of one byte).  For every byte, release flag and state,
  \<open>togglewrite\<close> makes, for the bits 0 to 7 of the byte in this order, the calls of
  \<open>write_bit_events\<close>: the bit is driven on the data line, then the clock is raised, then
  the clock is lowered, except after bit 7 when \<open>release\<close> is set, where the data line
  is switched to input instead.  Whatever the clock level was before, it is high at
  return when \<open>release\<close> is set and low otherwise.
\<close>

theorem togglewrite_signals:
  "gpio (togglewrite data release s) = gpio s @ write_events (io s) (sclk s) data release
   \<and> level_after (sclk s) lv (gpio (togglewrite data release s))
        = (if release \<noteq> 0 then HIGH else LOW)
   \<and> last (gpio (togglewrite data release s))
        = (if release \<noteq> 0 then PinMode (io s) INPUT else DelayMicroseconds 1)
   \<and> calls (togglewrite data release s) = calls s @ [Call_togglewrite data release]"
proof -
  have "write_events (io s) (sclk s) data release \<noteq> []"
    by (simp add: write_events_def write_bit_events_def upt_0_8)
  then show ?thesis
    by (simp add: togglewrite_eq level_after_append level_after_write_events last_write_events)
qed



text \<open>
  C10 (write leaves the record alone).  The record passed to \<open>write\<close> by reference has
  the same value after the call as before it, for every record and every state.
\<close>

theorem write_tm_keeps_record: "fst (snd (write_tm tm s)) = tm"
  by (simp add: write_tm_eq)

end
